theory Spec2Isabelle
  imports Complex_Main "HOL-Library.Sublist" "HOL-Library.Product_Lexorder"
begin

section \<open>JavaScript strings\<close>

text \<open>
  A JavaScript string is a sequence of UTF-16 code units. It is modelled as the list of
  its code units, each a natural number; \<open>js\<close> turns an ASCII literal into that form.
  Only the string operations the front end calls are given.
\<close>

type_synonym jstring = "nat list"

definition js :: "string \<Rightarrow> jstring" where
  "js s = map of_char s"

text \<open>
  \<open>String.prototype.trim\<close> removes the ECMAScript white space and line terminator
  code units from both ends.
\<close>

definition isWhiteSpace :: "nat \<Rightarrow> bool" where
  "isWhiteSpace c =
     (c = 0x09 \<or> c = 0x0A \<or> c = 0x0B \<or> c = 0x0C \<or> c = 0x0D \<or> c = 0x20 \<or> c = 0xA0
      \<or> c = 0x1680 \<or> (0x2000 \<le> c \<and> c \<le> 0x200A) \<or> c = 0x2028 \<or> c = 0x2029
      \<or> c = 0x202F \<or> c = 0x205F \<or> c = 0x3000 \<or> c = 0xFEFF)"

definition trim :: "jstring \<Rightarrow> jstring" where
  "trim s = rev (dropWhile isWhiteSpace (rev (dropWhile isWhiteSpace s)))"

section \<open>The chat widget: types\<close>

text \<open>
  The interfaces of the Chatbot component. \<open>Source.category\<close> is declared with the
  union type \<open>'backend' | 'frontend' | 'other'\<close>, but a source is what
  \<open>response.json()\<close> yields and nothing checks it: at run time the category is a
  string, and it is a string here. Optional fields are options, JavaScript numbers are
  rationals.
\<close>

record Source =
  src_file :: jstring
  src_path :: jstring
  src_category :: jstring
  relevance_score :: rat

record ValidationMetrics =
  faithfulness :: rat
  relevance :: rat
  coherence :: rat
  hallucination :: rat
  toxicity :: rat
  completeness :: rat
  overall_quality :: rat

record MessageMetadata =
  retrieved_chunks :: "rat option"
  used_context :: "bool option"
  processing_time_ms :: "rat option"
  is_overview :: "bool option"
  validation :: "ValidationMetrics option"

datatype sender = User | Bot

record Message =
  msg_id :: jstring
  sender :: sender
  msg_text :: jstring
  msg_time :: jstring
  sources :: "Source list option"
  metadata :: "MessageMetadata option"
  isError :: "bool option"
  isStreaming :: "bool option"

record ChatResponse =
  response :: jstring
  resp_sources :: "Source list"
  resp_metadata :: MessageMetadata

section \<open>The chat widget: utility functions\<close>



section \<open>The chat widget: sending a message\<close>

text \<open>
  The value handed to \<open>JSON.stringify\<close> is a tree of objects, arrays and strings;
  an object is the list of its properties in the order they are written.
\<close>

datatype json = JString jstring | JArray "json list" | JObject "(jstring \<times> json) list"

text \<open>A turn of the chat history, as \<open>getChatHistory\<close> builds it.\<close>

record ChatTurn =
  role :: jstring
  content :: jstring

text \<open>
  \<open>getChatHistory\<close> reads the \<open>messages\<close> of the render it was created in: it
  drops the message whose id is \<open>welcome\<close> and maps every other message to a turn.
\<close>

definition getChatHistory :: "Message list \<Rightarrow> ChatTurn list" where
  "getChatHistory messages =
     map (\<lambda>m. \<lparr>role = (if sender m = User then js ''user'' else js ''assistant''),
               content = msg_text m\<rparr>)
       (filter (\<lambda>m. msg_id m \<noteq> js ''welcome'') messages)"

text \<open>\<open>xs.slice(0, -1)\<close>: all elements but the last, the empty array staying empty.\<close>

definition slice_0_minus1 :: "'a list \<Rightarrow> 'a list" where
  "slice_0_minus1 xs = take (length xs - 1) xs"

definition turn_json :: "ChatTurn \<Rightarrow> json" where
  "turn_json t = JObject [(js ''role'', JString (role t)), (js ''content'', JString (content t))]"

text \<open>
  The component's state, one field per \<open>useState\<close> hook, and what \<open>fetch\<close> is
  called with. A call of \<open>fetch\<close> either rejects or resolves to a response, whose
  \<open>json()\<close> either rejects (\<open>None\<close>) or yields the parsed body.
\<close>

datatype connection = Checking | Online | Offline

record chat_state =
  isOpen :: bool
  messages :: "Message list"
  userInput :: jstring
  isTyping :: bool
  isLoading :: bool
  connectionStatus :: connection

record request =
  url :: jstring
  http_method :: jstring
  headers :: "(jstring \<times> jstring) list"
  body :: json

record http_response =
  ok :: bool
  status :: nat
  payload :: "ChatResponse option"

datatype fetch_result = Rejected | Resolved http_response

text \<open>
  What one call of \<open>handleSend\<close> draws from outside: the results of its two calls of
  \<open>generateId\<close> and \<open>getTime\<close> (for the user's message and for the reply) and
  the network.
\<close>

record send_env =
  id1 :: jstring
  time1 :: jstring
  id2 :: jstring
  time2 :: jstring
  fetch :: "request \<Rightarrow> fetch_result"

text \<open>
  The two request bodies. \<open>messages\<close> and \<open>getChatHistory\<close> are constants of the
  render in which \<open>handleSend\<close> was created, and \<open>setMessages\<close> only schedules the
  next render: so the history is computed from the messages as they were before the
  user's message was appended, and \<open>slice(0, -1)\<close> removes its last turn.
\<close>

definition chat_body :: "Message list \<Rightarrow> Message \<Rightarrow> json" where
  "chat_body closure_messages userMessage =
     JObject [(js ''message'', JString (msg_text userMessage)),
              (js ''chat_history'',
                 JArray (map turn_json (slice_0_minus1 (getChatHistory closure_messages))))]"

definition query_body :: "Message list \<Rightarrow> Message \<Rightarrow> json" where
  "query_body closure_messages userMessage =
     JObject [(js ''query'', JString (msg_text userMessage)),
              (js ''chat_history'',
                 JArray (map turn_json (slice_0_minus1 (getChatHistory closure_messages))))]"

definition chat_request :: "Message list \<Rightarrow> Message \<Rightarrow> request" where
  "chat_request closure_messages userMessage =
     \<lparr>url = js ''/api/chat'', http_method = js ''POST'',
      headers = [(js ''Content-Type'', js ''application/json'')],
      body = chat_body closure_messages userMessage\<rparr>"

definition query_request :: "Message list \<Rightarrow> Message \<Rightarrow> request" where
  "query_request closure_messages userMessage =
     \<lparr>url = js ''/query'', http_method = js ''POST'',
      headers = [(js ''Content-Type'', js ''application/json'')],
      body = query_body closure_messages userMessage\<rparr>"

definition new_message :: "jstring \<Rightarrow> sender \<Rightarrow> jstring \<Rightarrow> jstring \<Rightarrow> Message" where
  "new_message i s t tm =
     \<lparr>msg_id = i, sender = s, msg_text = t, msg_time = tm, sources = None, metadata = None,
      isError = None, isStreaming = None\<rparr>"

definition error_text :: jstring where
  "error_text = js (''Sorry, I encountered an error processing your request. '' @
                    ''Please make sure the RAG backend is running on port 5000.'')"

text \<open>
  The body of the outer \<open>try\<close>: the requests sent, in order, and either the parsed
  response or nothing when an exception reached the \<open>catch\<close> (the second
  \<open>fetch\<close> rejecting, a response that is not ok, or \<open>json()\<close> rejecting).
\<close>

definition exchange :: "send_env \<Rightarrow> Message list \<Rightarrow> Message \<Rightarrow> request list \<times> ChatResponse option"
  where
  "exchange env closure_messages userMessage =
     (let r1 = chat_request closure_messages userMessage;
          r2 = query_request closure_messages userMessage;
          finish = (\<lambda>resp. if \<not> ok resp then None else payload resp)
      in case fetch env r1 of
           Resolved resp1 \<Rightarrow>
             if ok resp1 then ([r1], finish resp1)
             else (case fetch env r2 of
                     Rejected \<Rightarrow> ([r1, r2], None)
                   | Resolved resp2 \<Rightarrow> ([r1, r2], finish resp2))
         | Rejected \<Rightarrow>
             (case fetch env r2 of
                Rejected \<Rightarrow> ([r1, r2], None)
              | Resolved resp2 \<Rightarrow> ([r1, r2], finish resp2)))"

text \<open>
  \<open>handleSend\<close>, run to completion with no other event in between: the state it
  leaves and the requests it sent. The guard returns at once; otherwise the user's
  message is appended and the flags are set, the exchange takes place, the reply or
  the error message is appended, and \<open>finally\<close> clears both flags.
\<close>

definition handleSend :: "send_env \<Rightarrow> chat_state \<Rightarrow> chat_state \<times> request list" where
  "handleSend env st =
     (if trim (userInput st) = [] \<or> isLoading st then (st, [])
      else
        let userMessage = new_message (id1 env) User (userInput st) (time1 env);
            st1 = st\<lparr>messages := messages st @ [userMessage], userInput := [],
                     isTyping := True, isLoading := True\<rparr>;
            (reqs, res) = exchange env (messages st) userMessage;
            reply = (case res of
                       Some data \<Rightarrow>
                         (new_message (id2 env) Bot (response data) (time2 env))
                           \<lparr>sources := Some (resp_sources data),
                            metadata := Some (resp_metadata data)\<rparr>
                     | None \<Rightarrow>
                         (new_message (id2 env) Bot error_text (time2 env))
                           \<lparr>isError := Some True\<rparr>)
        in (st1\<lparr>messages := messages st1 @ [reply], isTyping := False, isLoading := False\<rparr>,
            reqs))"

text \<open>
  \<open>clearChat\<close> replaces the messages by a single welcome message; \<open>now\<close> is what
  \<open>getTime\<close> returns.
\<close>

definition clearChat :: "jstring \<Rightarrow> chat_state \<Rightarrow> chat_state" where
  "clearChat now st =
     st\<lparr>messages :=
          [new_message (js ''welcome'') Bot (js ''Chat cleared! How can I help you today?'') now]\<rparr>"

text \<open>
  Reading a request body: the value of a property of an object, and the number of
  elements of an array so read.
\<close>

fun field_of :: "json \<Rightarrow> jstring \<Rightarrow> json option" where
  "field_of (JObject ps) k = map_of ps k"
| "field_of _ k = None"

fun array_length :: "json option \<Rightarrow> nat" where
  "array_length (Some (JArray xs)) = length xs"
| "array_length _ = 0"

section \<open>More string operations\<close>

text \<open>
  \<open>startsWith\<close>, \<open>includes\<close>, \<open>replace\<close> with a string pattern (the first
  occurrence only), \<open>split\<close> on one code unit (never an empty array) and
  \<open>join\<close> with a line feed.
\<close>

definition startsWith :: "jstring \<Rightarrow> jstring \<Rightarrow> bool" where
  "startsWith s p = (take (length p) s = p)"

fun js_includes :: "jstring \<Rightarrow> jstring \<Rightarrow> bool" where
  "js_includes [] p = (p = [])"
| "js_includes (c # s) p = (startsWith (c # s) p \<or> js_includes s p)"

fun replace_first :: "jstring \<Rightarrow> jstring \<Rightarrow> jstring \<Rightarrow> jstring" where
  "replace_first [] p r = (if p = [] then r else [])"
| "replace_first (c # s) p r =
     (if startsWith (c # s) p then r @ drop (length p) (c # s) else c # replace_first s p r)"

fun split_on :: "nat \<Rightarrow> jstring \<Rightarrow> jstring list" where
  "split_on d [] = [[]]"
| "split_on d (c # s) =
     (if c = d then [] # split_on d s
      else case split_on d s of [] \<Rightarrow> [[c]] | l # ls \<Rightarrow> (c # l) # ls)"

fun join_nl :: "jstring list \<Rightarrow> jstring" where
  "join_nl [] = []"
| "join_nl [x] = x"
| "join_nl (x # y # zs) = x @ [0x0A] @ join_nl (y # zs)"

text \<open>A non-negative integer in a template literal: its decimal digits.\<close>

fun show_nat :: "nat \<Rightarrow> jstring" where
  "show_nat n = (if n < 10 then [48 + n] else show_nat (n div 10) @ [48 + n mod 10])"

declare show_nat.simps [simp del]

section \<open>The documentation page: the file list\<close>

text \<open>
  The fields of \<open>DocFile\<close> and \<open>DocumentationData\<close> that the page reads; their
  declaration (\<open>types/documentation\<close>) is not among the sources, so every field is
  taken as a string and further fields are left open by the record scheme.
  \<open>docsData\<close> is \<open>null\<close> until the data is loaded.
\<close>

record DocFile =
  doc_id :: jstring
  displayName :: jstring
  fileName :: jstring
  file_section :: jstring
  file_subsection :: jstring
  doc_path :: jstring
  doc_category :: jstring
  mdFile :: jstring

record DocumentationData =
  files :: "DocFile list"

datatype category_filter = FilterAll | FilterBackend | FilterFrontend | FilterOther

fun filter_str :: "category_filter \<Rightarrow> jstring" where
  "filter_str FilterAll = js ''all''"
| "filter_str FilterBackend = js ''backend''"
| "filter_str FilterFrontend = js ''frontend''"
| "filter_str FilterOther = js ''other''"

text \<open>
  \<open>filteredFiles\<close>. \<open>String.prototype.toLowerCase\<close> is the built-in, whose Unicode
  tables are no part of the repository: the model takes it as the parameter
  \<open>toLowerCase\<close>. The query is tested after \<open>trim\<close> but matched as it was typed,
  lower-cased.
\<close>

definition filteredFiles ::
  "(jstring \<Rightarrow> jstring) \<Rightarrow> DocumentationData option \<Rightarrow> jstring \<Rightarrow> category_filter \<Rightarrow> DocFile list"
  where
  "filteredFiles toLowerCase docsData searchQuery categoryFilter =
     (case docsData of
        None \<Rightarrow> []
      | Some d \<Rightarrow>
          let files0 = files d;
              files1 = (if categoryFilter \<noteq> FilterAll
                        then filter (\<lambda>f. doc_category f = filter_str categoryFilter) files0
                        else files0)
          in if trim searchQuery \<noteq> []
             then let query = toLowerCase searchQuery
                  in filter (\<lambda>f. js_includes (toLowerCase (displayName f)) query
                                \<or> js_includes (toLowerCase (fileName f)) query
                                \<or> js_includes (toLowerCase (file_section f)) query
                                \<or> js_includes (toLowerCase (doc_path f)) query) files1
             else files1)"

text \<open>A lower-casing of the ASCII letters, to run \<open>filteredFiles\<close> on examples.\<close>

definition ascii_lower :: "jstring \<Rightarrow> jstring" where
  "ascii_lower s = map (\<lambda>c. if 65 \<le> c \<and> c \<le> 90 then c + 32 else c) s"

section \<open>The documentation page: parsing a markdown file\<close>

record doc_section =
  title :: jstring
  sec_content :: jstring
  codeBlocks :: "jstring list"

text \<open>The variables of \<open>parseMarkdownContent\<close> that its loop reads and writes.\<close>

record parse_state =
  sections :: "doc_section list"
  currentSection :: "doc_section option"
  currentContent :: "jstring list"
  inCodeBlock :: bool
  codeBlockContent :: "jstring list"
  mainTitle :: jstring

definition parse_init :: parse_state where
  "parse_init = \<lparr>sections = [], currentSection = None, currentContent = [],
                  inCodeBlock = False, codeBlockContent = [], mainTitle = []\<rparr>"

text \<open>
  One iteration of the loop. Closing a fence appends the block to the current section
  when there is one, and in every case appends a placeholder to the current content;
  the placeholder's number is \<open>NaN\<close> when there is no current section.
\<close>

definition parse_line :: "parse_state \<Rightarrow> jstring \<Rightarrow> parse_state" where
  "parse_line s line =
     (if startsWith (trim line) (js ''```'') then
        (if \<not> inCodeBlock s then s\<lparr>inCodeBlock := True, codeBlockContent := []\<rparr>
         else
           let cur = (case currentSection s of
                        None \<Rightarrow> None
                      | Some sec \<Rightarrow>
                          Some (sec\<lparr>codeBlocks := codeBlocks sec @ [join_nl (codeBlockContent s)]\<rparr>));
               num = (case cur of
                        None \<Rightarrow> js ''NaN''
                      | Some sec \<Rightarrow> show_nat (length (codeBlocks sec) - 1))
           in s\<lparr>inCodeBlock := False, currentSection := cur,
                currentContent := currentContent s @ [js ''___CODE_BLOCK_'' @ num @ js ''___'']\<rparr>)
      else if inCodeBlock s then s\<lparr>codeBlockContent := codeBlockContent s @ [line]\<rparr>
      else if startsWith line (js ''# '') \<and> \<not> startsWith line (js ''## '') then
        s\<lparr>mainTitle := trim (replace_first line (js ''# '') [])\<rparr>
      else if startsWith line (js ''## '') then
        (let sectionTitle = trim (replace_first line (js ''## '') [])
         in if sectionTitle = js ''Overview'' then s\<lparr>currentSection := None, currentContent := []\<rparr>
            else
              s\<lparr>sections :=
                   (case currentSection s of
                      None \<Rightarrow> sections s
                    | Some sec \<Rightarrow>
                        sections s @ [sec\<lparr>sec_content := trim (join_nl (currentContent s))\<rparr>]),
                 currentSection := Some \<lparr>title = sectionTitle, sec_content = [], codeBlocks = []\<rparr>,
                 currentContent := []\<rparr>)
      else if currentSection s \<noteq> None then s\<lparr>currentContent := currentContent s @ [line]\<rparr>
      else s)"

text \<open>After the loop the last section is added, unless its title is \<open>Overview\<close>.\<close>

definition parse_finish :: "parse_state \<Rightarrow> doc_section list" where
  "parse_finish s =
     (case currentSection s of
        None \<Rightarrow> sections s
      | Some sec \<Rightarrow>
          if title sec \<noteq> js ''Overview''
          then sections s @ [sec\<lparr>sec_content := trim (join_nl (currentContent s))\<rparr>]
          else sections s)"

definition parseMarkdownContent :: "jstring \<Rightarrow> doc_section list" where
  "parseMarkdownContent content_str =
     parse_finish (foldl parse_line parse_init (split_on 0x0A content_str))"

section \<open>The structure of a markdown file\<close>

text \<open>
  What the claims about \<open>parseMarkdownContent\<close> are stated against: the section
  headings and the fenced code blocks of a list of lines, in the order they appear.
  A fence is a line that, trimmed, starts with three backquotes; a code block is the
  lines between an opening fence and the next fence, joined; a section heading is a
  line outside every code block that starts with \<open>##\<close> and a space, and its text
  is the rest of the line, trimmed. A fence that is never closed makes no block.
\<close>

datatype md_item = Heading jstring | CodeBlock jstring

definition is_fence :: "jstring \<Rightarrow> bool" where
  "is_fence line = startsWith (trim line) (js ''```'')"

fun md_scan :: "jstring list option \<Rightarrow> jstring list \<Rightarrow> md_item list" where
  "md_scan fence [] = []"
| "md_scan None (l # ls) =
     (if is_fence l then md_scan (Some []) ls
      else if startsWith l (js ''## '') then Heading (trim (drop 3 l)) # md_scan None ls
      else md_scan None ls)"
| "md_scan (Some acc) (l # ls) =
     (if is_fence l then CodeBlock (join_nl acc) # md_scan None ls
      else md_scan (Some (acc @ [l])) ls)"

text \<open>The code blocks before the next heading, and every heading with those blocks.\<close>

fun blocks_to_next_heading :: "md_item list \<Rightarrow> jstring list" where
  "blocks_to_next_heading [] = []"
| "blocks_to_next_heading (Heading t # r) = []"
| "blocks_to_next_heading (CodeBlock b # r) = b # blocks_to_next_heading r"

fun section_views :: "md_item list \<Rightarrow> (jstring \<times> jstring list) list" where
  "section_views [] = []"
| "section_views (CodeBlock b # r) = section_views r"
| "section_views (Heading t # r) = (t, blocks_to_next_heading r) # section_views r"

text \<open>
  The title and the code blocks of a section, and the same bookkeeping as the parser's,
  run on the items: \<open>cur\<close> is the open section. A heading \<open>Overview\<close> discards the
  open section; any other heading closes it and opens the next.
\<close>

definition view :: "doc_section \<Rightarrow> jstring \<times> jstring list" where
  "view sec = (title sec, codeBlocks sec)"

fun collect :: "(jstring \<times> jstring list) option \<Rightarrow> md_item list \<Rightarrow> (jstring \<times> jstring list) list"
  where
  "collect cur [] = (case cur of None \<Rightarrow> [] | Some x \<Rightarrow> [x])"
| "collect cur (CodeBlock b # r) = collect (map_option (\<lambda>(t, bs). (t, bs @ [b])) cur) r"
| "collect cur (Heading t # r) =
     (if t = js ''Overview'' then collect None r
      else (case cur of None \<Rightarrow> [] | Some x \<Rightarrow> [x]) @ collect (Some (t, [])) r)"

definition fence_state :: "parse_state \<Rightarrow> jstring list option" where
  "fence_state s = (if inCodeBlock s then Some (codeBlockContent s) else None)"

section \<open>The retrieval pipeline\<close>

text \<open>
  Modelled from the spec: the retrieval back end (the Vector Index, the Retriever and
  the Re-ranker of the \<open>RAG\<close> directory) is not among the sources, so
  \<open>search\<close>, \<open>retrieve\<close> and \<open>diversify\<close> follow the words of the
  specification. Scores are rationals: the properties stated about them use their
  order only.
\<close>

datatype category = Backend | Frontend | Other

datatype error =
  IndexNotReadyError | EmbeddingServiceError | GenerationServiceError
  | RebuildInProgressError | CorruptIndexError | TimeoutError

type_synonym vec = "rat list"

record Chunk =
  chunk_id :: nat
  chunk_text :: string
  source_path :: string
  file_name :: string
  chunk_category :: category
  chunk_index :: nat

record RetrievalResult =
  chunk :: Chunk
  score :: rat

text \<open>
  Modelled from the spec: the Vector Index and the Document Chunk Store are parallel
  collections indexed identically, one vector per chunk, the chunk id being the
  position. A snapshot is the list of the pairs; the component holds no snapshot until
  the index has been built or loaded.
\<close>

type_synonym snapshot = "(vec \<times> Chunk) list"

definition dot :: "vec \<Rightarrow> vec \<Rightarrow> rat" where
  "dot a b = sum_list (map2 (*) a b)"

definition matches_filter :: "snapshot \<Rightarrow> category option \<Rightarrow> nat \<Rightarrow> bool" where
  "matches_filter ix cf i =
     (case cf of None \<Rightarrow> True | Some c \<Rightarrow> chunk_category (snd (ix ! i)) = c)"

definition candidates :: "snapshot \<Rightarrow> vec \<Rightarrow> category option \<Rightarrow> (nat \<times> rat) list" where
  "candidates ix q cf =
     map (\<lambda>i. (i, dot q (fst (ix ! i)))) (filter (matches_filter ix cf) [0..<length ix])"

text \<open>
  Modelled from the spec: \<open>search\<close> scores every indexed vector (of the chunks
  matching the filter, when there is one) by its inner product with the query vector
  and returns the \<open>k\<close> highest-scoring chunk ids, ties broken by lowest chunk id: the
  candidates are sorted by descending score, then ascending id, and the first \<open>k\<close>
  are kept. It fails with \<open>IndexNotReadyError\<close> before the first build or load.
\<close>

definition rank_key :: "nat \<times> rat \<Rightarrow> rat \<times> nat" where
  "rank_key h = (- snd h, fst h)"

definition search ::
  "snapshot option \<Rightarrow> vec \<Rightarrow> nat \<Rightarrow> category option \<Rightarrow> error + (nat \<times> rat) list" where
  "search index q k cf =
     (case index of
        None \<Rightarrow> Inl IndexNotReadyError
      | Some ix \<Rightarrow> Inr (take k (sort_key rank_key (candidates ix q cf))))"

text \<open>
  Modelled from the spec: \<open>retrieve\<close> expands the query, embeds it, searches with
  \<open>k = top_k * overfetch_factor\<close>, filters out every result with
  \<open>score < similarity_threshold\<close> and returns what remains; a failure of the
  expansion, the embedding or the search is propagated. Expansion and embedding are
  outside the claims and are parameters.
\<close>

definition threshold_filter :: "rat \<Rightarrow> RetrievalResult list \<Rightarrow> RetrievalResult list" where
  "threshold_filter similarity_threshold rs = filter (\<lambda>r. \<not> score r < similarity_threshold) rs"

definition with_chunks :: "snapshot option \<Rightarrow> (nat \<times> rat) list \<Rightarrow> RetrievalResult list" where
  "with_chunks index hits =
     (case index of
        None \<Rightarrow> []
      | Some ix \<Rightarrow> map (\<lambda>(i, s). \<lparr>chunk = snd (ix ! i), score = s\<rparr>) hits)"

definition fetch_candidates ::
  "(string \<Rightarrow> error + string) \<Rightarrow> (string \<Rightarrow> error + vec) \<Rightarrow> nat \<Rightarrow> snapshot option
     \<Rightarrow> string \<Rightarrow> nat \<Rightarrow> error + RetrievalResult list" where
  "fetch_candidates expand_query embed_text overfetch_factor index query top_k =
     (case expand_query query of
        Inl e \<Rightarrow> Inl e
      | Inr expanded \<Rightarrow>
          (case embed_text expanded of
             Inl e \<Rightarrow> Inl e
           | Inr v \<Rightarrow>
               (case search index v (top_k * overfetch_factor) None of
                  Inl e \<Rightarrow> Inl e
                | Inr hits \<Rightarrow> Inr (with_chunks index hits))))"

definition retrieve ::
  "(string \<Rightarrow> error + string) \<Rightarrow> (string \<Rightarrow> error + vec) \<Rightarrow> nat \<Rightarrow> snapshot option
     \<Rightarrow> string \<Rightarrow> nat \<Rightarrow> rat \<Rightarrow> error + RetrievalResult list" where
  "retrieve expand_query embed_text overfetch_factor index query top_k similarity_threshold =
     (case fetch_candidates expand_query embed_text overfetch_factor index query top_k of
        Inl e \<Rightarrow> Inl e
      | Inr rs \<Rightarrow> Inr (threshold_filter similarity_threshold rs))"

text \<open>
  Modelled from the spec: \<open>diversify\<close> groups the results by category, each group
  keeping the order the results came in, and interleaves the groups round-robin in the
  priority order backend, frontend, other. A round visits the groups in that order and
  takes the first remaining item of each group that has one, as long as fewer than
  \<open>target_count\<close> items have been taken; rounds are repeated until \<open>target_count\<close>
  items are selected or all groups are exhausted.
\<close>

definition by_category :: "category \<Rightarrow> RetrievalResult list \<Rightarrow> RetrievalResult list" where
  "by_category c rs = filter (\<lambda>r. chunk_category (chunk r) = c) rs"

definition category_groups :: "RetrievalResult list \<Rightarrow> RetrievalResult list list" where
  "category_groups rs = [by_category Backend rs, by_category Frontend rs, by_category Other rs]"

fun round_pass :: "nat \<Rightarrow> 'a list list \<Rightarrow> 'a list \<times> 'a list list" where
  "round_pass need [] = ([], [])"
| "round_pass need ([] # gs) = (let (out, gs') = round_pass need gs in (out, [] # gs'))"
| "round_pass need ((x # g) # gs) =
     (if need = 0 then ([], (x # g) # gs)
      else let (out, gs') = round_pass (need - 1) gs in (x # out, g # gs'))"

function round_robin :: "nat \<Rightarrow> 'a list list \<Rightarrow> 'a list" where
  "round_robin need gs =
     (if need = 0 \<or> (\<forall>g \<in> set gs. g = []) then []
      else let (out, gs') = round_pass need gs in out @ round_robin (need - length out) gs')"
  by pat_completeness auto
termination
proof (relation "measure (\<lambda>(need, gs). need)")
  show "wf (measure (\<lambda>(need, gs :: 'a list list). need))"
    by simp
next
  fix need :: nat and gs :: "'a list list" and x out gs'
  assume run: "\<not> (need = 0 \<or> (\<forall>g \<in> set gs. g = []))"
    and x: "x = round_pass need gs" and split: "(out, gs') = x"
  have taken: "0 < n \<Longrightarrow> \<exists>g \<in> set hs. g \<noteq> [] \<Longrightarrow> fst (round_pass n hs) \<noteq> []"
    for n and hs :: "'a list list"
    by (induction n hs rule: round_pass.induct) (auto split: prod.splits)
  have "out \<noteq> []"
    using taken[of need gs] run x split by (metis fst_conv not_gr_zero)
  then show "((need - length out, gs'), (need, gs)) \<in> measure (\<lambda>(need, gs). need)"
    using run by (cases out) auto
qed

declare round_robin.simps [simp del]

definition diversify :: "RetrievalResult list \<Rightarrow> nat \<Rightarrow> RetrievalResult list" where
  "diversify results target_count = round_robin target_count (category_groups results)"

text \<open>
  The items of round \<open>i\<close> (counted from 0): item \<open>i\<close> of every group that has one, in
  the order of the groups.
\<close>

definition round_items :: "'a list list \<Rightarrow> nat \<Rightarrow> 'a list" where
  "round_items gs i = map (\<lambda>g. g ! i) (filter (\<lambda>g. i < length g) gs)"

text \<open>
  \<open>a\<close> ranks before \<open>b\<close>: a higher score, or the same score and a lower chunk id.
\<close>

definition ranks_before :: "nat \<times> rat \<Rightarrow> nat \<times> rat \<Rightarrow> bool" where
  "ranks_before a b = (snd b < snd a \<or> (snd a = snd b \<and> fst a < fst b))"

section \<open>Examples\<close>

text \<open>
  A conversation of the chat widget (the welcome message, a question and its answer),
  a back end that answers every request, and a state in which a second question has
  been typed.
\<close>

definition example_messages :: "Message list" where
  "example_messages =
     [new_message (js ''welcome'') Bot (js ''Hello!'') (js ''09:00''),
      new_message (js ''k3x9q1a'') User (js ''List all entities'') (js ''09:01''),
      new_message (js ''p0d2m7z'') Bot (js ''There are twelve.'') (js ''09:01'')]"

definition example_response :: ChatResponse where
  "example_response =
     \<lparr>response = js ''See CartSummary.'', resp_sources = [],
      resp_metadata = \<lparr>retrieved_chunks = Some 0, used_context = Some False,
                        processing_time_ms = Some 12, is_overview = None, validation = None\<rparr>\<rparr>"

definition example_env :: send_env where
  "example_env =
     \<lparr>id1 = js ''t5u8w2b'', time1 = js ''09:02'', id2 = js ''c4r6y0e'', time2 = js ''09:02'',
      fetch = (\<lambda>r. Resolved \<lparr>ok = True, status = 200, payload = Some example_response\<rparr>)\<rparr>"

definition example_state :: chat_state where
  "example_state =
     \<lparr>isOpen = True, messages = example_messages, userInput = js ''Show cart components'',
      isTyping = False, isLoading = False, connectionStatus = Online\<rparr>"

definition blank_state :: chat_state where
  "blank_state = example_state\<lparr>userInput := js ''  ''\<rparr>"

text \<open>
  A longer conversation: the chat is cleared, then six questions are typed and sent,
  each answered by the back end. \<open>ask\<close> is the change of the input field followed
  by \<open>handleSend\<close>; \<open>turn_env\<close> gives the ids and times of the \<open>i\<close>-th
  exchange.
\<close>

definition turn_env :: "nat \<Rightarrow> send_env" where
  "turn_env i =
     \<lparr>id1 = js ''q'' @ show_nat i, time1 = js ''10:0'' @ show_nat i,
      id2 = js ''a'' @ show_nat i, time2 = js ''10:0'' @ show_nat i,
      fetch = (\<lambda>r. Resolved \<lparr>ok = True, status = 200, payload = Some example_response\<rparr>)\<rparr>"

definition ask :: "nat \<Rightarrow> jstring \<Rightarrow> chat_state \<Rightarrow> chat_state" where
  "ask i question st = fst (handleSend (turn_env i) (st\<lparr>userInput := question\<rparr>))"

definition long_conversation :: chat_state where
  "long_conversation =
     foldl (\<lambda>st i. ask i (js ''List all entities'') st) (clearChat (js ''10:00'') example_state)
       [1, 2, 3, 4, 5, 6]"



text \<open>Two documentation files and a markdown file with one section and one code block.\<close>

definition example_docs :: DocumentationData where
  "example_docs =
     \<lparr>files =
        [\<lparr>doc_id = js ''1'', displayName = js ''CartController'',
          fileName = js ''CartController.php'', file_section = js ''Controllers'',
          file_subsection = [], doc_path = js ''src/Controller/CartController.php'',
          doc_category = js ''backend'', mdFile = js ''CartController.md''\<rparr>,
         \<lparr>doc_id = js ''2'', displayName = js ''CartSummary'',
          fileName = js ''CartSummary.vue'', file_section = js ''Components'',
          file_subsection = [], doc_path = js ''components/CartSummary.vue'',
          doc_category = js ''frontend'', mdFile = js ''CartSummary.md''\<rparr>]\<rparr>"

definition example_markdown :: jstring where
  "example_markdown = js ''## A'' @ [10] @ js ''```'' @ [10] @ js ''c'' @ [10] @ js ''```''"

text \<open>
  Three retrieval results (the example of the specification) and an index of three
  chunks whose scores against the query vector \<open>[1, 0]\<close> are 1, 1/2 and 1/4.
\<close>

definition mk_chunk :: "nat \<Rightarrow> category \<Rightarrow> Chunk" where
  "mk_chunk i c =
     \<lparr>chunk_id = i, chunk_text = [], source_path = [], file_name = [], chunk_category = c,
      chunk_index = 0\<rparr>"

definition example_results :: "RetrievalResult list" where
  "example_results =
     [\<lparr>chunk = mk_chunk 0 Backend, score = 9 / 10\<rparr>,
      \<lparr>chunk = mk_chunk 1 Backend, score = 8 / 10\<rparr>,
      \<lparr>chunk = mk_chunk 2 Frontend, score = 7 / 10\<rparr>]"

definition example_index :: snapshot where
  "example_index =
     [([1 / 4, 0], mk_chunk 0 Backend), ([1, 0], mk_chunk 1 Frontend),
      ([1 / 2, 0], mk_chunk 2 Backend)]"

section \<open>Properties of the chat widget\<close>





text \<open>
  C9. When the input is empty or only white space, or a request is in flight
  (\<open>isLoading\<close>), \<open>handleSend\<close> returns at once: the state, with its message list,
  input text and typing and loading flags, is unchanged, and no request is made.
\<close>

theorem handleSend_guard:
  "trim (userInput st) = [] \<or> isLoading st \<Longrightarrow> handleSend env st = (st, [])"
  by (auto simp add: handleSend_def)

lemma blank_input: "trim (userInput blank_state) = []"
  by (simp add: blank_state_def trim_def js_def isWhiteSpace_def)

theorem handleSend_guard_witness:
  "trim (userInput blank_state) = [] \<and> handleSend example_env blank_state = (blank_state, [])"
  using blank_input handleSend_guard[of blank_state example_env] by simp

lemma slice_butlast: "slice_0_minus1 xs = butlast xs"
  by (simp add: slice_0_minus1_def butlast_conv_take)

lemma exchange_first: "\<exists>rest. fst (exchange env ms um) = chat_request ms um # rest"
  by (simp add: exchange_def Let_def split: fetch_result.splits)

lemma handleSend_requests:
  "trim (userInput st) \<noteq> [] \<Longrightarrow> \<not> isLoading st \<Longrightarrow>
   snd (handleSend env st) =
     fst (exchange env (messages st) (new_message (id1 env) User (userInput st) (time1 env)))"
  by (simp add: handleSend_def Let_def split: prod.splits)

lemma history_roles:
  "t \<in> set (getChatHistory ms) \<Longrightarrow> role t = js ''user'' \<or> role t = js ''assistant''"
  by (auto simp: getChatHistory_def)

lemma example_input: "trim (userInput example_state) \<noteq> []"
  by (simp add: example_state_def trim_def js_def isWhiteSpace_def)

lemma example_idle: "\<not> isLoading example_state"
  by (simp add: example_state_def)

text \<open>
  C2. For every input that is not blank (and with no request in flight), the first
  request \<open>handleSend\<close> sends goes to \<open>/api/chat\<close> and its body is an object with
  exactly the properties \<open>message\<close>, the text as the user typed it, and
  \<open>chat_history\<close>, an array of objects with a \<open>role\<close> that is \<open>user\<close> or
  \<open>assistant\<close> and a \<open>content\<close>. The turns of the history are an initial part
  of the turns of \<open>messages st\<close>, the messages before the one just entered, so that
  message is not among them.
\<close>

theorem chat_request_shape:
  assumes "trim (userInput st) \<noteq> []" and "\<not> isLoading st"
  shows "\<exists>h rest.
     snd (handleSend env st) =
       \<lparr>url = js ''/api/chat'', http_method = js ''POST'',
        headers = [(js ''Content-Type'', js ''application/json'')],
        body = JObject
          [(js ''message'', JString (userInput st)),
           (js ''chat_history'',
              JArray (map (\<lambda>t. JObject [(js ''role'', JString (role t)),
                                        (js ''content'', JString (content t))]) h))]\<rparr> # rest
     \<and> (\<forall>t \<in> set h. role t = js ''user'' \<or> role t = js ''assistant'')
     \<and> prefix h (getChatHistory (messages st))"
proof -
  let ?um = "new_message (id1 env) User (userInput st) (time1 env)"
  let ?h = "butlast (getChatHistory (messages st))"
  obtain rest where r: "snd (handleSend env st) = chat_request (messages st) ?um # rest"
    using exchange_first[of env "messages st" ?um] handleSend_requests[OF assms] by auto
  have roles: "\<forall>t \<in> set ?h. role t = js ''user'' \<or> role t = js ''assistant''"
    using history_roles in_set_butlastD by fast
  have "chat_request (messages st) ?um =
       \<lparr>url = js ''/api/chat'', http_method = js ''POST'',
        headers = [(js ''Content-Type'', js ''application/json'')],
        body = JObject
          [(js ''message'', JString (userInput st)),
           (js ''chat_history'',
              JArray (map (\<lambda>t. JObject [(js ''role'', JString (role t)),
                                        (js ''content'', JString (content t))]) ?h))]\<rparr>"
    by (simp add: chat_request_def chat_body_def new_message_def slice_butlast
          turn_json_def[abs_def])
  with r have "snd (handleSend env st) =
       \<lparr>url = js ''/api/chat'', http_method = js ''POST'',
        headers = [(js ''Content-Type'', js ''application/json'')],
        body = JObject
          [(js ''message'', JString (userInput st)),
           (js ''chat_history'',
              JArray (map (\<lambda>t. JObject [(js ''role'', JString (role t)),
                                        (js ''content'', JString (content t))]) ?h))]\<rparr> # rest"
    by simp
  with roles prefixeq_butlast[of "getChatHistory (messages st)"] show ?thesis
    by (intro exI[of _ ?h] exI[of _ rest]) simp
qed

theorem chat_request_shape_witness:
  "trim (userInput example_state) \<noteq> [] \<and> \<not> isLoading example_state
   \<and> getChatHistory (messages example_state)
       = [\<lparr>role = js ''user'', content = js ''List all entities''\<rparr>,
          \<lparr>role = js ''assistant'', content = js ''There are twelve.''\<rparr>]
   \<and> (\<exists>h. snd (handleSend example_env example_state) =
       [\<lparr>url = js ''/api/chat'', http_method = js ''POST'',
         headers = [(js ''Content-Type'', js ''application/json'')],
         body = JObject
           [(js ''message'', JString (js ''Show cart components'')),
            (js ''chat_history'',
               JArray (map (\<lambda>t. JObject [(js ''role'', JString (role t)),
                                         (js ''content'', JString (content t))]) h))]\<rparr>]
        \<and> prefix h (getChatHistory (messages example_state)))"
proof -
  obtain h rest where r: "snd (handleSend example_env example_state) =
       \<lparr>url = js ''/api/chat'', http_method = js ''POST'',
        headers = [(js ''Content-Type'', js ''application/json'')],
        body = JObject
          [(js ''message'', JString (userInput example_state)),
           (js ''chat_history'',
              JArray (map (\<lambda>t. JObject [(js ''role'', JString (role t)),
                                        (js ''content'', JString (content t))]) h))]\<rparr> # rest"
    and p: "prefix h (getChatHistory (messages example_state))"
    using chat_request_shape[OF example_input example_idle, of example_env] by blast
  have "length (snd (handleSend example_env example_state)) = 1"
    by (simp add: handleSend_requests[OF example_input example_idle] exchange_def Let_def
          example_env_def)
  with r have rest: "rest = []"
    by simp
  have hist: "getChatHistory (messages example_state)
       = [\<lparr>role = js ''user'', content = js ''List all entities''\<rparr>,
          \<lparr>role = js ''assistant'', content = js ''There are twelve.''\<rparr>]"
    by (simp add: example_state_def example_messages_def getChatHistory_def new_message_def js_def)
  have inp: "userInput example_state = js ''Show cart components''"
    by (simp add: example_state_def)
  have "\<exists>h. snd (handleSend example_env example_state) =
       [\<lparr>url = js ''/api/chat'', http_method = js ''POST'',
         headers = [(js ''Content-Type'', js ''application/json'')],
         body = JObject
           [(js ''message'', JString (js ''Show cart components'')),
            (js ''chat_history'',
               JArray (map (\<lambda>t. JObject [(js ''role'', JString (role t)),
                                         (js ''content'', JString (content t))]) h))]\<rparr>]
        \<and> prefix h (getChatHistory (messages example_state))"
    using r p unfolding rest inp by (intro exI[of _ h]) simp
  then show ?thesis
    using example_input example_idle hist by simp
qed

text \<open>
  C1, as the code has it. The chat widget applies no bound to the history: for every
  message list \<open>getChatHistory\<close> returns one turn for every message whose id is not
  \<open>welcome\<close>, in the order of the messages, and discards none. Its length is the
  number of those messages, the history of a longer conversation extends that of a
  shorter one, and there are histories longer than any given number.
\<close>

theorem chat_history_unbounded:
  "length (getChatHistory msgs) = length (filter (\<lambda>m. msg_id m \<noteq> js ''welcome'') msgs)
   \<and> map content (getChatHistory msgs)
       = map msg_text (filter (\<lambda>m. msg_id m \<noteq> js ''welcome'') msgs)
   \<and> getChatHistory (older @ newer) = getChatHistory older @ getChatHistory newer
   \<and> (\<exists>ms. N < length (getChatHistory ms))"
proof -
  let ?m = "new_message (js ''k3x9q1a'') User (js ''List all entities'') (js ''09:01'')"
  have "length (getChatHistory (replicate (Suc N) ?m)) = Suc N"
    by (simp add: getChatHistory_def new_message_def js_def)
  then have "\<exists>ms. N < length (getChatHistory ms)"
    by (metis lessI)
  then show ?thesis
    by (simp add: getChatHistory_def comp_def)
qed

lemma long_conversation_messages:
  "map msg_id (messages long_conversation)
     = [js ''welcome'', js ''q1'', js ''a1'', js ''q2'', js ''a2'', js ''q3'', js ''a3'',
        js ''q4'', js ''a4'', js ''q5'', js ''a5'', js ''q6'', js ''a6'']"
  by (simp add: long_conversation_def ask_def turn_env_def clearChat_def handleSend_def
        exchange_def Let_def new_message_def example_state_def trim_def js_def
        isWhiteSpace_def show_nat.simps)

lemma history_length:
  "length (getChatHistory ms) = length (filter (\<lambda>i. i \<noteq> js ''welcome'') (map msg_id ms))"
  by (simp add: getChatHistory_def filter_map comp_def)

text \<open>
  C1, as the claim states it, fails. After the chat is cleared and six questions are
  asked and answered, \<open>getChatHistory\<close> returns twelve turns and the next request
  carries more than ten, the documented default of \<open>MAX_HISTORY_MESSAGES\<close>; and no
  number bounds the length of what \<open>getChatHistory\<close> returns.
\<close>

theorem chat_history_bound_counterexample:
  "length (getChatHistory (messages long_conversation)) = 12
   \<and> 10 < array_length (field_of
        (body (hd (snd (handleSend example_env
                          (long_conversation\<lparr>userInput := js ''Show cart components''\<rparr>)))))
        (js ''chat_history''))
   \<and> \<not> (\<exists>N. \<forall>msgs. length (getChatHistory msgs) \<le> N)"
proof -
  let ?m = "new_message (js ''k3x9q1a'') User (js ''List all entities'') (js ''09:01'')"
  let ?st = "long_conversation\<lparr>userInput := js ''Show cart components''\<rparr>"
  have twelve: "length (getChatHistory (messages long_conversation)) = 12"
    by (simp add: history_length long_conversation_messages js_def)
  have i: "trim (userInput ?st) \<noteq> []"
    by (simp add: trim_def js_def isWhiteSpace_def)
  have l: "\<not> isLoading ?st"
    by (simp add: long_conversation_def ask_def turn_env_def clearChat_def handleSend_def
          exchange_def Let_def new_message_def example_state_def trim_def js_def
          isWhiteSpace_def show_nat.simps)
  have "hd (snd (handleSend example_env ?st))
          = chat_request (messages ?st) (new_message (id1 example_env) User (userInput ?st)
              (time1 example_env))"
    using exchange_first[of example_env "messages ?st"
        "new_message (id1 example_env) User (userInput ?st) (time1 example_env)"]
      handleSend_requests[OF i l, of example_env]
    by auto
  then have "array_length (field_of (body (hd (snd (handleSend example_env ?st))))
               (js ''chat_history''))
          = length (butlast (getChatHistory (messages long_conversation)))"
    by (simp add: chat_request_def chat_body_def slice_butlast js_def)
  then have more: "10 < array_length (field_of (body (hd (snd (handleSend example_env ?st))))
               (js ''chat_history''))"
    using twelve by simp
  have len: "length (getChatHistory (replicate n ?m)) = n" for n
    by (simp add: getChatHistory_def new_message_def js_def)
  have "\<not> (\<exists>N. \<forall>msgs. length (getChatHistory msgs) \<le> N)"
  proof
    assume "\<exists>N. \<forall>msgs. length (getChatHistory msgs) \<le> N"
    then obtain N where "\<forall>msgs. length (getChatHistory msgs) \<le> N" ..
    then have "length (getChatHistory (replicate (Suc N) ?m)) \<le> N" by blast
    then show False by (simp only: len)
  qed
  with twelve more show ?thesis by simp
qed

section \<open>Properties of the documentation page\<close>

lemma replace_first_prefix: "startsWith l p \<Longrightarrow> replace_first l p [] = drop (length p) l"
  by (cases l) (auto simp: startsWith_def)

lemma length_heading_mark: "length (js ''## '') = 3"
  by (simp add: js_def)

lemma view_sec_content [simp]: "view (sec\<lparr>sec_content := c\<rparr>) = view sec"
  by (simp add: view_def)

text \<open>
  The loop of the parser, seen through \<open>view\<close>, does on the lines what \<open>collect\<close>
  does on their items. The open section never has the title \<open>Overview\<close>.
\<close>

lemma parse_fold:
  "(\<forall>sec. currentSection s = Some sec \<longrightarrow> title sec \<noteq> js ''Overview'') \<Longrightarrow>
   map view (parse_finish (foldl parse_line s ls)) =
     map view (sections s) @ collect (map_option view (currentSection s)) (md_scan (fence_state s) ls)"
proof (induction ls arbitrary: s)
  case Nil
  then show ?case by (auto simp: parse_finish_def split: option.splits)
next
  case (Cons l ls)
  let ?s' = "parse_line s l"
  have inv: "\<forall>sec. currentSection ?s' = Some sec \<longrightarrow> title sec \<noteq> js ''Overview''"
    using Cons.prems by (auto simp: parse_line_def Let_def split: option.splits if_splits)
  have step:
    "map view (sections ?s') @ collect (map_option view (currentSection ?s')) (md_scan (fence_state ?s') ls)
       = map view (sections s)
           @ collect (map_option view (currentSection s)) (md_scan (fence_state s) (l # ls))"
    by (auto simp: parse_line_def Let_def fence_state_def is_fence_def view_def
          replace_first_prefix length_heading_mark split: option.splits)
  show ?case using Cons.IH[OF inv] step by simp
qed

lemma parse_views:
  "map view (parseMarkdownContent c) = collect None (md_scan None (split_on 10 c))"
  unfolding parseMarkdownContent_def
  using parse_fold[of parse_init "split_on 10 c"]
  by (simp add: parse_init_def fence_state_def)

lemma collect_subseq:
  "subseq (collect cur items)
     ((case cur of None \<Rightarrow> [] | Some (t, bs) \<Rightarrow> [(t, bs @ blocks_to_next_heading items)])
        @ section_views items)"
proof (induction items arbitrary: cur)
  case Nil
  then show ?case by (auto split: option.splits)
next
  case (Cons it items)
  show ?case
  proof (cases it)
    case (Heading t')
    show ?thesis
    proof (cases "t' = js ''Overview''")
      case True
      have "subseq (collect None items) (section_views items)"
        using Cons.IH[of None] by simp
      then have "subseq (collect None items) ((t', blocks_to_next_heading items) # section_views items)"
        by (rule list_emb_Cons)
      then show ?thesis using Heading True
        by (auto split: option.splits)
    next
      case False
      have "subseq (collect (Some (t', [])) items)
              ((t', blocks_to_next_heading items) # section_views items)"
        using Cons.IH[of "Some (t', [])"] by simp
      then show ?thesis using Heading False
        by (auto split: option.splits)
    qed
  next
    case (CodeBlock b)
    show ?thesis using Cons.IH[of "map_option (\<lambda>(t, bs). (t, bs @ [b])) cur"] CodeBlock
      by (auto split: option.splits)
  qed
qed

lemma collect_titles:
  "(t, bs) \<in> set (collect cur items) \<Longrightarrow>
   (\<forall>t0 bs0. cur = Some (t0, bs0) \<longrightarrow> t0 \<noteq> js ''Overview'') \<Longrightarrow> t \<noteq> js ''Overview''"
proof (induction cur items rule: collect.induct)
  case (1 cur)
  then show ?case by (auto split: option.splits)
next
  case (2 cur b r)
  then show ?case by (cases cur) auto
next
  case (3 cur t' r)
  then show ?case by (auto split: option.splits if_splits)
qed

lemma section_views_heading: "(t, bs) \<in> set (section_views items) \<Longrightarrow> Heading t \<in> set items"
  by (induction items rule: section_views.induct) auto

lemma md_scan_heading:
  "Heading t \<in> set (md_scan f ls) \<Longrightarrow>
   \<exists>l \<in> set ls. startsWith l (js ''## '') \<and> t = trim (drop 3 l)"
  by (induction f ls rule: md_scan.induct) (auto split: if_splits)

text \<open>
  C10. For every input, no section that \<open>parseMarkdownContent\<close> returns has the
  title \<open>Overview\<close>; every title is the trimmed text of a line of the input that
  starts with \<open>##\<close> and a space; and the returned sections are, in order, among the
  section headings of the input, each with exactly the fenced code blocks that lie
  between its heading and the next section heading.
\<close>

theorem parseMarkdownContent_sections:
  "(\<forall>s \<in> set (parseMarkdownContent c).
       title s \<noteq> js ''Overview'' \<and>
       (\<exists>l \<in> set (split_on 10 c). startsWith l (js ''## '') \<and> title s = trim (drop 3 l)))
   \<and> subseq (map view (parseMarkdownContent c)) (section_views (md_scan None (split_on 10 c)))"
proof -
  let ?items = "md_scan None (split_on 10 c)"
  have sub: "subseq (map view (parseMarkdownContent c)) (section_views ?items)"
    using collect_subseq[of None ?items] by (simp add: parse_views)
  have "title s \<noteq> js ''Overview'' \<and>
       (\<exists>l \<in> set (split_on 10 c). startsWith l (js ''## '') \<and> title s = trim (drop 3 l))"
    if "s \<in> set (parseMarkdownContent c)" for s
  proof -
    have m: "view s \<in> set (map view (parseMarkdownContent c))" using that by simp
    have 1: "(title s, codeBlocks s) \<in> set (collect None ?items)"
      using m by (simp add: parse_views view_def)
    have 2: "(title s, codeBlocks s) \<in> set (section_views ?items)"
      using m list_emb_set[OF sub] by (auto simp: view_def)
    show ?thesis
      using collect_titles[OF 1] md_scan_heading[OF section_views_heading[OF 2]] by simp
  qed
  with sub show ?thesis by blast
qed

theorem parseMarkdownContent_sections_witness:
  "parseMarkdownContent example_markdown
     = [\<lparr>title = js ''A'', sec_content = js ''___CODE_BLOCK_0___'', codeBlocks = [js ''c'']\<rparr>]
   \<and> js ''A'' \<noteq> js ''Overview''
   \<and> (\<exists>l \<in> set (split_on 10 example_markdown).
         startsWith l (js ''## '') \<and> js ''A'' = trim (drop 3 l))
   \<and> subseq [(js ''A'', [js ''c''])] (section_views (md_scan None (split_on 10 example_markdown)))"
proof -
  have ev: "parseMarkdownContent example_markdown
     = [\<lparr>title = js ''A'', sec_content = js ''___CODE_BLOCK_0___'', codeBlocks = [js ''c'']\<rparr>]"
    by (simp add: parseMarkdownContent_def example_markdown_def js_def parse_init_def
          parse_line_def parse_finish_def startsWith_def trim_def isWhiteSpace_def
          show_nat.simps)
  have "map view (parseMarkdownContent example_markdown) = [(js ''A'', [js ''c''])]"
    by (simp add: ev view_def)
  then show ?thesis
    using ev parseMarkdownContent_sections[of example_markdown] by simp
qed

text \<open>
  C8. For loaded data \<open>d\<close>, every category filter and every query, the files
  \<open>filteredFiles\<close> returns are a subsequence of \<open>files d\<close> in their order; when the
  filter is not \<open>all\<close> every one of them has the filter's category; when the trimmed
  query is not empty every one of them contains the lower-cased query in its
  lower-cased display name, file name, section or path; the result is exactly the files
  that meet both conditions; and with the filter \<open>all\<close> and an empty query it is
  \<open>files d\<close>.
\<close>

theorem filteredFiles_spec:
  "let r = filteredFiles lc (Some d) q cf;
       found = (\<lambda>f. js_includes (lc (displayName f)) (lc q)
                  \<or> js_includes (lc (fileName f)) (lc q)
                  \<or> js_includes (lc (file_section f)) (lc q)
                  \<or> js_includes (lc (doc_path f)) (lc q))
   in subseq r (files d)
      \<and> (cf \<noteq> FilterAll \<longrightarrow> (\<forall>f \<in> set r. doc_category f = filter_str cf))
      \<and> (trim q \<noteq> [] \<longrightarrow> (\<forall>f \<in> set r. found f))
      \<and> r = filter (\<lambda>f. (cf = FilterAll \<or> doc_category f = filter_str cf)
                        \<and> (trim q = [] \<or> found f)) (files d)
      \<and> (cf = FilterAll \<and> q = [] \<longrightarrow> r = files d)"
proof -
  have t: "trim [] = []" by (simp add: trim_def)
  show ?thesis
    by (auto simp add: filteredFiles_def Let_def t)
qed

theorem filteredFiles_spec_witness:
  "FilterFrontend \<noteq> FilterAll \<and> trim (js ''Cart'') \<noteq> []
   \<and> filteredFiles ascii_lower (Some example_docs) (js ''Cart'') FilterFrontend
       = [files example_docs ! 1]
   \<and> subseq [files example_docs ! 1] (files example_docs)
   \<and> doc_category (files example_docs ! 1) = filter_str FilterFrontend
   \<and> js_includes (ascii_lower (displayName (files example_docs ! 1))) (ascii_lower (js ''Cart''))"
proof -
  have ev: "filteredFiles ascii_lower (Some example_docs) (js ''Cart'') FilterFrontend
              = [files example_docs ! 1]"
    by (simp add: filteredFiles_def example_docs_def ascii_lower_def js_def trim_def
          isWhiteSpace_def startsWith_def Let_def)
  have q: "trim (js ''Cart'') \<noteq> []"
    by (simp add: trim_def js_def isWhiteSpace_def)
  have inc: "js_includes (ascii_lower (displayName (files example_docs ! 1)))
               (ascii_lower (js ''Cart''))"
    by (simp add: example_docs_def ascii_lower_def js_def startsWith_def)
  show ?thesis
    using filteredFiles_spec[of ascii_lower example_docs "js ''Cart''" FilterFrontend] q inc
    by (simp add: Let_def ev)
qed

section \<open>Properties of the retrieval pipeline\<close>

subsection \<open>The Re-ranker\<close>

lemma round_items_Nil [simp]: "round_items [] i = []"
  by (simp add: round_items_def)

lemma round_items_Cons:
  "round_items (g # gs) i = (if i < length g then g ! i # round_items gs i else round_items gs i)"
  by (simp add: round_items_def)

lemma round_pass_out: "fst (round_pass need gs) = take need (round_items gs 0)"
  by (induction need gs rule: round_pass.induct)
     (auto simp: round_items_Cons take_Cons' split: prod.splits)

lemma round_pass_rest:
  "length (round_items gs 0) \<le> need \<Longrightarrow> snd (round_pass need gs) = map tl gs"
  by (induction need gs rule: round_pass.induct)
     (auto simp: round_items_Cons split: prod.splits)

lemma round_items_tl: "round_items (map tl gs) i = round_items gs (Suc i)"
  by (induction gs) (auto simp: round_items_Cons nth_tl)

lemma round_items_empty: "(\<forall>g \<in> set gs. g = []) \<Longrightarrow> round_items gs i = []"
  by (induction gs) (auto simp: round_items_Cons)

lemma rounds_shift:
  "concat (map (round_items gs) [0..<Suc m])
     = round_items gs 0 @ concat (map (round_items (map tl gs)) [0..<m])"
proof -
  have "[0..<Suc m] = 0 # map Suc [0..<m]"
    by (simp add: upt_conv_Cons map_Suc_upt del: upt_Suc)
  then show ?thesis
    by (simp add: round_items_tl[symmetric] comp_def del: upt_Suc)
qed

text \<open>The loop emits the rounds one after the other and stops after \<open>need\<close> items.\<close>

lemma round_robin_closed:
  "(\<forall>g \<in> set gs. length g \<le> m) \<Longrightarrow>
   round_robin need gs = take need (concat (map (round_items gs) [0..<m]))"
proof (induction need gs arbitrary: m rule: round_robin.induct)
  case (1 need gs)
  show ?case
  proof (cases "need = 0 \<or> (\<forall>g \<in> set gs. g = [])")
    case True
    then show ?thesis
      by (subst round_robin.simps) (auto simp: round_items_empty)
  next
    case False
    then obtain m' where m: "m = Suc m'"
      using "1.prems" by (cases m) auto
    obtain out gs' where rp: "round_pass need gs = (out, gs')"
      by fastforce
    have out: "out = take need (round_items gs 0)"
      using round_pass_out[of need gs] rp by simp
    have rr: "round_robin need gs = out @ round_robin (need - length out) gs'"
      using False rp by (subst round_robin.simps) auto
    show ?thesis
    proof (cases "length (round_items gs 0) \<le> need")
      case True
      then have gs': "gs' = map tl gs"
        using round_pass_rest[of gs need] rp by simp
      have b: "\<forall>g \<in> set gs'. length g \<le> m'"
        using "1.prems" m gs' by auto
      have ih: "round_robin (need - length out) gs'
                  = take (need - length out) (concat (map (round_items gs') [0..<m']))"
        using "1.IH"[OF False rp[symmetric] refl b] by simp
      show ?thesis
        unfolding rr ih m rounds_shift using True out gs' by simp
    next
      case short: False
      then have "length out = need"
        using out by simp
      then have "round_robin (need - length out) gs' = []"
        by (simp add: round_robin.simps)
      then show ?thesis
        unfolding rr m rounds_shift using short out by simp
    qed
  qed
qed

lemma prefix_filter_take: "prefix (filter P (take n xs)) (filter P xs)"
proof -
  have "filter P xs = filter P (take n xs) @ filter P (drop n xs)"
    by (metis append_take_drop_id filter_append)
  then show ?thesis by (rule prefixI)
qed

lemma concat_nth_rounds:
  "concat (map (\<lambda>i. if i < length g then [g ! i] else []) [0..<m]) = take m g"
proof (induction m)
  case 0
  then show ?case by simp
next
  case (Suc m)
  then show ?case by (simp add: take_Suc_conv_app_nth)
qed

lemma filter_concat_map: "filter P (concat (map f ns)) = concat (map (\<lambda>i. filter P (f i)) ns)"
  by (induction ns) auto

lemma filter_round_items:
  "filter (\<lambda>r. chunk_category (chunk r) = c) (round_items (category_groups rs) i)
     = (if i < length (by_category c rs) then [by_category c rs ! i] else [])"
proof -
  have in_cat: "chunk_category (chunk (by_category d rs ! i)) = d"
    if "i < length (by_category d rs)" for d
    using nth_mem[OF that] by (simp add: by_category_def)
  show ?thesis
    by (cases c) (auto simp: category_groups_def round_items_Cons in_cat)
qed

lemma group_bound: "\<forall>g \<in> set (category_groups rs). length g \<le> length rs"
  by (simp add: category_groups_def by_category_def)

lemma all_rounds_category:
  "by_category c (concat (map (round_items (category_groups rs)) [0..<length rs]))
     = by_category c rs"
proof -
  have "by_category c (concat (map (round_items (category_groups rs)) [0..<length rs]))
      = concat (map (\<lambda>i. if i < length (by_category c rs) then [by_category c rs ! i] else [])
                  [0..<length rs])"
    unfolding by_category_def[of c "concat _"] filter_concat_map filter_round_items ..
  also have "\<dots> = take (length rs) (by_category c rs)"
    by (rule concat_nth_rounds)
  also have "\<dots> = by_category c rs"
    by (simp add: by_category_def)
  finally show ?thesis .
qed

lemma diversify_closed:
  "diversify rs n = take n (concat (map (round_items (category_groups rs)) [0..<length rs]))"
  unfolding diversify_def using round_robin_closed[OF group_bound] by blast

lemma length_by_categories:
  "length xs = length (by_category Backend xs) + length (by_category Frontend xs)
                 + length (by_category Other xs)"
proof (induction xs)
  case Nil
  then show ?case by (simp add: by_category_def)
next
  case (Cons x xs)
  then show ?case
    by (cases "chunk_category (chunk x)") (simp_all add: by_category_def)
qed

lemma length_all_rounds:
  "length (concat (map (round_items (category_groups rs)) [0..<length rs])) = length rs"
proof -
  let ?X = "concat (map (round_items (category_groups rs)) [0..<length rs])"
  have "length ?X = length (by_category Backend ?X) + length (by_category Frontend ?X)
                      + length (by_category Other ?X)"
    by (rule length_by_categories)
  also have "\<dots> = length (by_category Backend rs) + length (by_category Frontend rs)
                      + length (by_category Other rs)"
    by (simp only: all_rounds_category)
  also have "\<dots> = length rs"
    by (rule length_by_categories[symmetric])
  finally show ?thesis .
qed

lemma diversify_prefix: "prefix (by_category c (diversify rs n)) (by_category c rs)"
proof -
  have "prefix (by_category c (diversify rs n))
          (by_category c (concat (map (round_items (category_groups rs)) [0..<length rs])))"
    unfolding diversify_closed by_category_def by (rule prefix_filter_take)
  then show ?thesis by (simp only: all_rounds_category)
qed

lemma diversify_length: "length (diversify rs n) = min n (length rs)"
  unfolding diversify_closed by (simp add: length_all_rounds min.commute)

lemma sorted_wrt_prefix: "prefix xs ys \<Longrightarrow> sorted_wrt R ys \<Longrightarrow> sorted_wrt R xs"
  by (auto simp: prefix_def sorted_wrt_append)

lemma diversify_sorted:
  assumes "sorted_wrt (\<lambda>a b. score b \<le> score a) rs"
  shows "sorted_wrt (\<lambda>a b. score b \<le> score a) (by_category c (diversify rs n))"
proof -
  have "sorted_wrt (\<lambda>a b. score b \<le> score a) (by_category c rs)"
    using assms unfolding by_category_def by (rule sorted_wrt_filter)
  then show ?thesis
    using diversify_prefix sorted_wrt_prefix by blast
qed

lemma diversify_example:
  "diversify example_results 2
     = [\<lparr>chunk = mk_chunk 0 Backend, score = 9 / 10\<rparr>,
        \<lparr>chunk = mk_chunk 2 Frontend, score = 7 / 10\<rparr>]"
  by (simp add: diversify_def example_results_def category_groups_def by_category_def
        mk_chunk_def round_robin.simps)

text \<open>
  C3. For every sequence of results and every target count, \<open>diversify\<close> emits the
  rounds one after the other, round \<open>i\<close> being item \<open>i\<close> of each of the groups
  backend, frontend, other that has one, in that order, and stops at
  \<open>target_count\<close> items or when the groups are exhausted (so it returns
  \<open>min target_count (length results)\<close> items). The results of each category come
  out in the order they came in, a prefix of that category's group, hence by
  descending score when the input is. For the results backend 0.9, backend 0.8,
  frontend 0.7 and the target count 2 the output is backend 0.9, frontend 0.7.
\<close>

theorem diversify_round_robin:
  "diversify rs n = take n (concat (map (round_items (category_groups rs)) [0..<length rs]))
   \<and> category_groups rs = [by_category Backend rs, by_category Frontend rs, by_category Other rs]
   \<and> length (diversify rs n) = min n (length rs)
   \<and> (\<forall>c. prefix (by_category c (diversify rs n)) (by_category c rs))
   \<and> (sorted_wrt (\<lambda>a b. score b \<le> score a) rs \<longrightarrow>
        (\<forall>c. sorted_wrt (\<lambda>a b. score b \<le> score a) (by_category c (diversify rs n))))
   \<and> diversify example_results 2
        = [\<lparr>chunk = mk_chunk 0 Backend, score = 9 / 10\<rparr>,
           \<lparr>chunk = mk_chunk 2 Frontend, score = 7 / 10\<rparr>]"
  using diversify_closed[of rs n] diversify_length[of rs n] diversify_prefix[of _ rs n]
    diversify_sorted[of rs _ n] diversify_example
  by (simp add: category_groups_def)

theorem diversify_round_robin_witness:
  "sorted_wrt (\<lambda>a b. score b \<le> score a) example_results
   \<and> length (diversify example_results 2) = 2
   \<and> (\<forall>c. prefix (by_category c (diversify example_results 2)) (by_category c example_results))
   \<and> (\<forall>c. sorted_wrt (\<lambda>a b. score b \<le> score a) (by_category c (diversify example_results 2)))"
proof -
  have "sorted_wrt (\<lambda>a b. score b \<le> score a) example_results"
    by (simp add: example_results_def)
  moreover have "length example_results = 3"
    by (simp add: example_results_def)
  moreover have
    "length (diversify example_results 2) = min 2 (length example_results)"
    "\<forall>c. prefix (by_category c (diversify example_results 2)) (by_category c example_results)"
    "sorted_wrt (\<lambda>a b. score b \<le> score a) example_results \<longrightarrow>
       (\<forall>c. sorted_wrt (\<lambda>a b. score b \<le> score a) (by_category c (diversify example_results 2)))"
    using diversify_round_robin[of example_results 2] by blast+
  ultimately show ?thesis
    by simp
qed

subsection \<open>The Vector Index\<close>

lemma candidates_ids:
  "map fst (candidates ix q cf) = filter (matches_filter ix cf) [0..<length ix]"
  by (simp add: candidates_def comp_def)

lemma candidates_distinct: "distinct (map fst (candidates ix q cf))"
  by (simp add: candidates_ids)

lemma candidates_valid:
  "h \<in> set (candidates ix q cf) \<Longrightarrow> fst h < length ix \<and> snd h = dot q (fst (ix ! fst h))"
  by (auto simp: candidates_def)

lemma candidates_all:
  "candidates ix q None = map (\<lambda>i. (i, dot q (fst (ix ! i)))) [0..<length ix]"
  by (simp add: candidates_def matches_filter_def)

lemma strict_rank:
  "sorted (map rank_key r) \<Longrightarrow> distinct (map fst r) \<Longrightarrow> sorted_wrt ranks_before r"
proof (induction r)
  case Nil
  then show ?case by simp
next
  case (Cons a r)
  have "ranks_before a b" if "b \<in> set r" for b
  proof -
    have "rank_key a \<le> rank_key b"
      using Cons.prems(1) that by auto
    moreover have "fst a \<noteq> fst b"
      using Cons.prems(2) that by auto
    ultimately show ?thesis
      by (auto simp: rank_key_def ranks_before_def less_eq_prod_def)
  qed
  then show ?case using Cons by auto
qed

lemma ranked_sorted: "sorted_wrt ranks_before (sort_key rank_key (candidates ix q cf))"
proof (rule strict_rank)
  show "sorted (map rank_key (sort_key rank_key (candidates ix q cf)))"
    by (rule sorted_sort_key)
  show "distinct (map fst (sort_key rank_key (candidates ix q cf)))"
    using candidates_distinct[of ix q cf] by (simp add: distinct_map)
qed

text \<open>
  C4. For an index of \<open>N\<close> chunks and every \<open>k \<le> N\<close> (so for \<open>1 \<le> k \<le> N\<close>),
  \<open>search\<close> without a category filter returns exactly \<open>k\<close> pairs; each holds a chunk
  id below \<open>N\<close> and that chunk's score; the pairs are ordered by descending score,
  ties by ascending chunk id; and every chunk left out ranks after every chunk
  returned.
\<close>

theorem search_top_k:
  assumes "k \<le> length ix"
  shows "\<exists>r. search (Some ix) q k None = Inr r
     \<and> length r = k
     \<and> (\<forall>h \<in> set r. fst h < length ix \<and> snd h = dot q (fst (ix ! fst h)))
     \<and> sorted_wrt (\<lambda>a b. snd b < snd a \<or> (snd a = snd b \<and> fst a < fst b)) r
     \<and> (\<forall>x \<in> set r. \<forall>i < length ix. i \<notin> fst ` set r \<longrightarrow>
           dot q (fst (ix ! i)) < snd x \<or> (snd x = dot q (fst (ix ! i)) \<and> fst x < i))"
proof -
  let ?S = "sort_key rank_key (candidates ix q None)"
  let ?r = "take k ?S"
  have s: "search (Some ix) q k None = Inr ?r"
    by (simp add: search_def)
  have len: "length ?r = k"
    using assms by (simp add: candidates_all)
  have sub: "set ?r \<subseteq> set (candidates ix q None)"
    using set_take_subset[of k ?S] by simp
  have valid: "\<forall>h \<in> set ?r. fst h < length ix \<and> snd h = dot q (fst (ix ! fst h))"
    using sub candidates_valid by blast
  have "sorted_wrt ranks_before ?r
          \<and> (\<forall>x \<in> set ?r. \<forall>y \<in> set (drop k ?S). ranks_before x y)"
    using ranked_sorted[of ix q None] sorted_wrt_append[of ranks_before ?r "drop k ?S"]
    by (simp only: append_take_drop_id) blast
  then have srt_r: "sorted_wrt ranks_before ?r"
    and cross: "\<forall>x \<in> set ?r. \<forall>y \<in> set (drop k ?S). ranks_before x y"
    by blast+
  have top: "dot q (fst (ix ! i)) < snd x \<or> (snd x = dot q (fst (ix ! i)) \<and> fst x < i)"
    if x: "x \<in> set ?r" and i: "i < length ix" and out: "i \<notin> fst ` set ?r" for x i
  proof -
    have "(i, dot q (fst (ix ! i))) \<in> set (candidates ix q None)"
      using i by (auto simp: candidates_all)
    then have "(i, dot q (fst (ix ! i))) \<in> set (?r @ drop k ?S)"
      by simp
    moreover have "(i, dot q (fst (ix ! i))) \<notin> set ?r"
      using out by force
    ultimately have "(i, dot q (fst (ix ! i))) \<in> set (drop k ?S)"
      by (simp del: append_take_drop_id)
    then have "ranks_before x (i, dot q (fst (ix ! i)))"
      using cross x by blast
    then show ?thesis
      by (simp add: ranks_before_def)
  qed
  show ?thesis
    using s len valid srt_r top unfolding ranks_before_def[abs_def] by blast
qed

lemma example_search:
  "search (Some example_index) [1, 0] 2 None = Inr [(1, 1), (2, 1 / 2)]"
  by (simp add: search_def example_index_def candidates_def matches_filter_def dot_def
        rank_key_def upt_rec)

theorem search_top_k_witness:
  "(2::nat) \<le> length example_index
   \<and> search (Some example_index) [1, 0] 2 None = Inr [(1, 1), (2, 1 / 2)]
   \<and> (\<exists>r. search (Some example_index) [1, 0] 2 None = Inr r \<and> length r = 2
        \<and> (\<forall>h \<in> set r. fst h < length example_index)
        \<and> sorted_wrt (\<lambda>a b. snd b < snd a \<or> (snd a = snd b \<and> fst a < fst b)) r)"
proof -
  have k: "(2::nat) \<le> length example_index"
    by (simp add: example_index_def)
  show ?thesis
    using k example_search search_top_k[OF k, of "[1, 0]"] by auto
qed

text \<open>
  C5. On an index that has been built \<open>search\<close> never fails. With \<open>k = 0\<close>, or on
  an index with no chunks, it returns the empty sequence. It returns \<open>min k m\<close> results, \<open>m\<close> being the
  number of chunks that match the category filter (all \<open>N\<close> chunks when there is no
  filter): fewer than \<open>k\<close> only when fewer than \<open>k\<close> chunks match.
\<close>

theorem search_fewer_results:
  "search (Some ix) q 0 cf = Inr []
   \<and> search (Some []) q k cf = Inr []
   \<and> (\<exists>r. search (Some ix) q k cf = Inr r
        \<and> length r = min k (length (filter (matches_filter ix cf) [0..<length ix]))
        \<and> (length r < k \<longrightarrow> length (filter (matches_filter ix cf) [0..<length ix]) < k))
   \<and> length (filter (matches_filter ix None) [0..<length ix]) = length ix"
proof -
  have "length (candidates ix q cf) = length (filter (matches_filter ix cf) [0..<length ix])"
    by (simp add: candidates_def)
  then show ?thesis
    by (auto simp: search_def candidates_def matches_filter_def)
qed

lemma example_search_frontend:
  "search (Some example_index) [1, 0] 2 (Some Frontend) = Inr [(1, 1)]"
  by (simp add: search_def example_index_def candidates_def matches_filter_def dot_def
        rank_key_def upt_rec mk_chunk_def)

theorem search_fewer_results_witness:
  "search (Some example_index) [1, 0] 2 (Some Frontend) = Inr [(1, 1)]
   \<and> length [(1::nat, 1::rat)] < 2
   \<and> length (filter (matches_filter example_index (Some Frontend))
               [0..<length example_index]) < 2"
  using example_search_frontend
    search_fewer_results[of example_index "[1, 0]" "Some Frontend" 2]
  by auto

subsection \<open>The Retriever\<close>

text \<open>
  C6. The similarity threshold is an inclusive lower bound: a candidate is kept by the
  filter exactly when its score is at least the threshold, so a score equal to the
  threshold is kept and only scores strictly below it are removed; \<open>retrieve\<close>
  returns the candidates so filtered, and propagates a failure.
\<close>

theorem threshold_inclusive:
  "(r \<in> set (threshold_filter thr rs) \<longleftrightarrow> r \<in> set rs \<and> thr \<le> score r)
   \<and> (fetch_candidates ex em f index qy top_k = Inr rs \<longrightarrow>
        retrieve ex em f index qy top_k thr = Inr (filter (\<lambda>r. thr \<le> score r) rs))
   \<and> (fetch_candidates ex em f index qy top_k = Inl e \<longrightarrow>
        retrieve ex em f index qy top_k thr = Inl e)"
  by (auto simp: threshold_filter_def retrieve_def not_less)

lemma example_candidates:
  "fetch_candidates Inr (\<lambda>t. Inr [1, 0]) 2 (Some example_index) ''cart'' 5
     = Inr [\<lparr>chunk = mk_chunk 1 Frontend, score = 1\<rparr>,
            \<lparr>chunk = mk_chunk 2 Backend, score = 1 / 2\<rparr>,
            \<lparr>chunk = mk_chunk 0 Backend, score = 1 / 4\<rparr>]"
  by (simp add: fetch_candidates_def with_chunks_def search_def example_index_def
        candidates_def matches_filter_def dot_def rank_key_def upt_rec)

theorem threshold_inclusive_witness:
  "fetch_candidates Inr (\<lambda>t. Inr [1, 0]) 2 (Some example_index) ''cart'' 5
     = Inr [\<lparr>chunk = mk_chunk 1 Frontend, score = 1\<rparr>,
            \<lparr>chunk = mk_chunk 2 Backend, score = 1 / 2\<rparr>,
            \<lparr>chunk = mk_chunk 0 Backend, score = 1 / 4\<rparr>]
   \<and> retrieve Inr (\<lambda>t. Inr [1, 0]) 2 (Some example_index) ''cart'' 5 (1 / 2)
     = Inr [\<lparr>chunk = mk_chunk 1 Frontend, score = 1\<rparr>,
            \<lparr>chunk = mk_chunk 2 Backend, score = 1 / 2\<rparr>]"
  using example_candidates
    threshold_inclusive[of _ "1 / 2" _ Inr "\<lambda>t. Inr [1, 0]" 2 "Some example_index" "''cart''" 5]
  by simp

end
